theory Spec2Isabelle
  imports Complex_Main "HOL-Library.AList"
begin

section \<open>Data model of \<open>ai2thor/controller.py\<close>\<close>

text \<open>
  Python floats are modelled as real numbers: every arithmetic operation of the source is
  exact here, so the rounding error of binary floating point is outside the model.
  Coordinates are the entries \<open>'x'\<close>, \<open>'y'\<close>, \<open>'z'\<close> of a position dictionary; the fields
  are called \<open>px\<close>, \<open>py\<close>, \<open>pz\<close>. A dictionary that only carries \<open>x\<close> and \<open>z\<close> (the result of
  \<open>BFSSearchPoint.target_point\<close>, the points \<open>has_islands\<close> looks for) is an \<open>xz\<close>; a
  position of the engine also has the height \<open>y\<close>.
\<close>

record xz =
  px :: real
  pz :: real

record xyz = xz +
  py :: real

text \<open>The part of an event's metadata the controller reads: \<open>metadata['agent']\<close> with
  \<open>['position']\<close>, \<open>['rotation']['y']\<close>, \<open>['cameraHorizon']\<close>, and the two result fields.\<close>

record Agent =
  position :: xyz
  rotation_y :: real
  cameraHorizon :: real

record Metadata =
  lastActionSuccess :: bool
  errorMessage :: string
  agent :: Agent

record Event =
  metadata :: Metadata
  image_buf :: string

text \<open>An action is a dictionary from parameter names to values; \<open>NpGeneric\<close> is a numpy
  scalar (\<open>np.generic\<close>), which \<open>step\<close> converts before sending.\<close>

datatype val = Str string | Num real | Bool bool | NpGeneric real

type_synonym action = "(string \<times> val) list"

text \<open>The exceptions the modelled code can raise. \<open>AssertionError None\<close> is what a bare
  \<open>assert cond\<close> raises (no message); \<open>Blocked\<close> stands for a blocking \<open>queue_get\<close> on a
  slot that is never filled (the call does not return).\<close>

datatype error =
    AssertionError "string option"
  | AttributeError
  | Full
  | IndexError
  | KeyError string
  | NetworkXError
  | Exception string
  | Blocked

fun message_of :: "error \<Rightarrow> string option" where
  "message_of (AssertionError m) = m"
| "message_of (KeyError k) = Some k"
| "message_of (Exception m) = Some m"
| "message_of _ = None"

section \<open>The session controller\<close>

text \<open>\<open>Controller.__init__\<close>: two queues of capacity one and the last event. The engine
  is external; it is a parameter \<open>eng\<close> that answers an action with an event and moves
  its own state \<open>'w\<close>.\<close>

record Controller =
  request_queue :: "Event list"
  response_queue :: "action list"
  last_event :: "Event option"

type_synonym 'w engine = "'w \<Rightarrow> action \<Rightarrow> Event \<times> 'w"

definition put_nowait :: "'a list \<Rightarrow> 'a \<Rightarrow> error + 'a list" where
  "put_nowait q item = (if length q \<ge> 1 then Inl Full else Inr (q @ [item]))"

definition queue_get :: "'a list \<Rightarrow> error + ('a \<times> 'a list)" where
  "queue_get q = (case q of [] \<Rightarrow> Inl Blocked | item # rest \<Rightarrow> Inr (item, rest))"

text \<open>Modelled from the spec: the server thread of \<open>ai2thor.server\<close> is not among the
  sources. Section 4.1: "the response slot is filled with the outgoing action; the call
  blocks until the request slot is filled with the resulting Event". The engine's turn
  takes the action out of the response slot and fills the request slot with its event.\<close>

definition engine_turn ::
    "'w engine \<Rightarrow> action list \<times> Event list \<times> 'w \<Rightarrow> action list \<times> Event list \<times> 'w" where
  "engine_turn eng st = (case st of (resp, req, w) \<Rightarrow>
     (case resp of
        [] \<Rightarrow> (resp, req, w)
      | a # rest \<Rightarrow> (case eng w a of (ev, w') \<Rightarrow> (rest, req @ [ev], w'))))"

text \<open>\<open>Controller._check_action\<close> accepts everything; a subclass may override it, so
  \<open>step\<close> takes the check of the object it runs on as the parameter \<open>chk\<close>.\<close>

definition check_action :: "action \<Rightarrow> bool" where
  "check_action a = True"

fun asscalar :: "val \<Rightarrow> val" where
  "asscalar (NpGeneric v) = Num v"
| "asscalar v = v"

text \<open>\<open>Controller.step\<close>. The result is the raised error or the returned event, together
  with the controller and the engine state as the call leaves them (also when it raises).\<close>

definition step ::
    "(action \<Rightarrow> bool) \<Rightarrow> 'w engine \<Rightarrow> action \<Rightarrow> bool \<Rightarrow> 'a Controller_scheme \<times> 'w
      \<Rightarrow> (error + Event) \<times> 'a Controller_scheme \<times> 'w" where
  "step chk eng act raise_for_failure cw = (case cw of (c, w) \<Rightarrow>
     if \<not> chk act then
       (case last_event c of
          None \<Rightarrow> (Inl AttributeError, c, w)
        | Some le \<Rightarrow>
            let new_event = \<lparr>metadata = (metadata le)\<lparr>lastActionSuccess := False\<rparr>,
                             image_buf = image_buf le\<rparr>
            in (Inr new_event, c\<lparr>last_event := Some new_event\<rparr>, w))
     else if request_queue c \<noteq> [] then (Inl (AssertionError None), c, w)
     else
       let action_filtered = map (\<lambda>(k, v). (k, asscalar v)) act in
       (case put_nowait (response_queue c) action_filtered of
          Inl e \<Rightarrow> (Inl e, c, w)
        | Inr resp \<Rightarrow>
            (case engine_turn eng (resp, request_queue c, w) of (resp', req', w') \<Rightarrow>
               (case queue_get req' of
                  Inl e \<Rightarrow> (Inl e, c\<lparr>response_queue := resp', request_queue := req'\<rparr>, w')
                | Inr (ev, req'') \<Rightarrow>
                    let c' = c\<lparr>response_queue := resp', request_queue := req'',
                               last_event := Some ev\<rparr>
                    in if raise_for_failure \<and> \<not> lastActionSuccess (metadata ev)
                       then (Inl (AssertionError None), c', w')
                       else (Inr ev, c', w')))))"

text \<open>\<open>Controller.reset\<close>: the same handshake without the pre-flight check, the
  assertion and the conversion.\<close>

definition reset ::
    "'w engine \<Rightarrow> string \<Rightarrow> 'a Controller_scheme \<times> 'w
      \<Rightarrow> (error + Event) \<times> 'a Controller_scheme \<times> 'w" where
  "reset eng scene_name cw = (case cw of (c, w) \<Rightarrow>
     (case put_nowait (response_queue c)
             [(''action'', Str ''Reset''), (''sceneName'', Str scene_name),
              (''sequenceId'', Num 0)] of
        Inl e \<Rightarrow> (Inl e, c, w)
      | Inr resp \<Rightarrow>
          (case engine_turn eng (resp, request_queue c, w) of (resp', req', w') \<Rightarrow>
             (case queue_get req' of
                Inl e \<Rightarrow> (Inl e, c\<lparr>response_queue := resp', request_queue := req'\<rparr>, w')
              | Inr (ev, req'') \<Rightarrow>
                  (Inr ev, c\<lparr>response_queue := resp', request_queue := req'',
                             last_event := Some ev\<rparr>, w')))))"

section \<open>Planning of rotations and camera tilt\<close>

text \<open>Python's \<open>int(v)\<close> on a float truncates towards zero; \<open>range(n)\<close> is empty for
  \<open>n \<le> 0\<close>, which \<open>nat\<close> gives.\<close>

definition py_int :: "real \<Rightarrow> int" where
  "py_int v = (if v \<ge> 0 then \<lfloor>v\<rfloor> else \<lceil>v\<rceil>)"

definition act :: "string \<Rightarrow> action" where
  "act name = [(''action'', Str name)]"

definition plan_rotations :: "real \<Rightarrow> real \<Rightarrow> action list" where
  "plan_rotations agent_rotation target_rotation =
     (let right_diff = target_rotation - agent_rotation;
          right_diff = (if right_diff < 0 then right_diff + 360 else right_diff);
          right_steps = right_diff / 90;
          left_diff = agent_rotation - target_rotation;
          left_diff = (if left_diff < 0 then left_diff + 360 else left_diff);
          left_steps = left_diff / 90
      in if right_steps < left_steps
         then replicate (nat (py_int right_steps)) (act ''RotateRight'')
         else replicate (nat (py_int left_steps)) (act ''RotateLeft''))"

definition horizon_step_map :: "int \<Rightarrow> int option" where
  "horizon_step_map h =
     (if h = 330 then Some 3 else if h = 0 then Some 2 else if h = 30 then Some 1
      else if h = 60 then Some 0 else None)"

definition plan_horizons :: "real \<Rightarrow> real \<Rightarrow> error + action list" where
  "plan_horizons agent_horizon target_horizon =
     (case horizon_step_map (py_int agent_horizon) of
        None \<Rightarrow> Inl (KeyError ''horizon'')
      | Some ha \<Rightarrow>
          (case horizon_step_map (py_int target_horizon) of
             None \<Rightarrow> Inl (KeyError ''horizon'')
           | Some ht \<Rightarrow>
               let look_diff = ha - ht in
               if look_diff > 0 then Inr (replicate (nat look_diff) (act ''LookDown''))
               else Inr (replicate (nat \<bar>look_diff\<bar>) (act ''LookUp''))))"

text \<open>What the actions mean, in the words of the specification: \<open>RotateRight\<close> and
  \<open>RotateLeft\<close> turn the heading by 90 degrees on the compass \<open>0, 90, 180, 270\<close>.\<close>

definition turn_right :: "real \<Rightarrow> real" where
  "turn_right h = (if h + 90 \<ge> 360 then h + 90 - 360 else h + 90)"

definition turn_left :: "real \<Rightarrow> real" where
  "turn_left h = (if h - 90 < 0 then h - 90 + 360 else h - 90)"

definition headings :: "real set" where
  "headings = {0, 90, 180, 270}"

section \<open>Keys of grid points\<close>

definition distance :: "'a xz_scheme \<Rightarrow> 'b xz_scheme \<Rightarrow> real" where
  "distance point1 point2 =
     (let x_diff = (px point1 - px point2)\<^sup>2;
          z_diff = (pz point1 - pz point2)\<^sup>2
      in sqrt (x_diff + z_diff))"

text \<open>The formats \<open>%0.1f\<close> and \<open>{:0.3f}\<close>: the value is rounded to \<open>d\<close> decimals, a tie
  going to the even neighbour, and written with a minus sign when it is negative (also
  when it rounds to zero: \<open>-0.0\<close>), the integer part, a point and exactly \<open>d\<close> digits.\<close>

definition round_half_even :: "real \<Rightarrow> int" where
  "round_half_even v =
     (let f = \<lfloor>v\<rfloor>; d = v - of_int f
      in if d < 1 / 2 then f else if d > 1 / 2 then f + 1
         else if even f then f else f + 1)"

definition digit :: "nat \<Rightarrow> char" where
  "digit n = ''0123456789'' ! n"

fun str_nat :: "nat \<Rightarrow> string" where
  "str_nat n = (if n < 10 then [digit n] else str_nat (n div 10) @ [digit (n mod 10)])"

declare str_nat.simps [simp del]

definition format_f :: "nat \<Rightarrow> real \<Rightarrow> string" where
  "format_f d v =
     (let n = nat (round_half_even (\<bar>v\<bar> * 10 ^ d));
          frac = str_nat (n mod 10 ^ d)
      in (if v < 0 then ''-'' else '''') @ str_nat (n div 10 ^ d) @ ''.''
         @ replicate (d - length frac) (CHR ''0'') @ frac)"

text \<open>The module's \<open>key_for_point(x, z)\<close>, one decimal, used by \<open>prune_points\<close>.\<close>

definition key_for_point :: "real \<Rightarrow> real \<Rightarrow> string" where
  "key_for_point x z = format_f 1 x @ '' '' @ format_f 1 z"

text \<open>The method \<open>BFSController.key_for_point(point)\<close>, three decimals, used for the
  nodes of the graph.\<close>

definition node_key_for_point :: "'a xz_scheme \<Rightarrow> string" where
  "node_key_for_point point = format_f 3 (px point) @ ''|'' @ format_f 3 (pz point)"

section \<open>The frontier explorer\<close>

text \<open>\<open>BFSSearchPoint\<close>. Its \<open>move_vector\<close> is a \<open>defaultdict\<close> that reads an unset axis as
  \<open>0.0\<close>; \<open>target_point\<close>, which \<open>enqueue_point\<close> calls on every point before it is queued,
  reads both axes and thereby stores both, so the vector is a pair of reals here.\<close>

record BFSSearchPoint =
  start_position :: xyz
  move_vector :: xz
  heading_angle :: real
  horizon_angle :: real

definition target_point :: "BFSSearchPoint \<Rightarrow> xz" where
  "target_point sp =
     \<lparr>px = px (start_position sp) + px (move_vector sp),
      pz = pz (start_position sp) + pz (move_vector sp)\<rparr>"

text \<open>\<open>BFSController\<close> extends \<open>Controller\<close>. (\<open>rotations\<close> and \<open>horizons\<close> are constants that
  only the visibility sweep reads.)\<close>

record BFSController = Controller +
  allow_enqueue :: bool
  queue :: "BFSSearchPoint list"
  seen_points :: "xz list"
  grid_points :: "xyz list"
  grid_size :: real

definition enqueue_point :: "BFSSearchPoint \<Rightarrow> 'a BFSController_scheme \<Rightarrow> 'a BFSController_scheme" where
  "enqueue_point point s =
     (let threshold = grid_size s / 5.0 in
      if \<not> list_ex (\<lambda>p. distance p (target_point point) < threshold) (seen_points s)
      then s\<lparr>seen_points := seen_points s @ [target_point point],
              queue := queue s @ [point]\<rparr>
      else s)"

definition search_point :: "xyz \<Rightarrow> real \<Rightarrow> real \<Rightarrow> BFSSearchPoint" where
  "search_point agent_position dx dz =
     \<lparr>start_position = agent_position, move_vector = \<lparr>px = dx, pz = dz\<rparr>,
      heading_angle = 0.0, horizon_angle = 0.0\<rparr>"

definition enqueue_points :: "xyz \<Rightarrow> 'a BFSController_scheme \<Rightarrow> 'a BFSController_scheme" where
  "enqueue_points agent_position s =
     (if \<not> allow_enqueue s then s
      else
        let s = enqueue_point (search_point agent_position (- 1 * grid_size s) 0.0) s;
            s = enqueue_point (search_point agent_position (grid_size s) 0.0) s;
            s = enqueue_point (search_point agent_position 0.0 (- 1 * grid_size s)) s;
            s = enqueue_point (search_point agent_position 0.0 (1 * grid_size s)) s
        in s)"

definition teleport_action :: "xyz \<Rightarrow> action" where
  "teleport_action p =
     [(''action'', Str ''Teleport''), (''x'', Num (px p)), (''y'', Num (py p)), (''z'', Num (pz p))]"

definition move_action :: "xz \<Rightarrow> real \<Rightarrow> action" where
  "move_action move_vec magnitude =
     [(''action'', Str ''Move''), (''x'', Num (px move_vec)), (''z'', Num (pz move_vec)),
      (''moveMagnitude'', Num magnitude)]"

text \<open>\<open>BFSController.queue_step\<close>. \<open>popleft\<close> on an empty deque raises \<open>IndexError\<close>; the
  two calls of \<open>step\<close> use the inherited \<open>_check_action\<close>.\<close>

definition queue_step ::
    "'w engine \<Rightarrow> 'a BFSController_scheme \<times> 'w
      \<Rightarrow> (error + Event) \<times> 'a BFSController_scheme \<times> 'w" where
  "queue_step eng sw = (case sw of (s, w) \<Rightarrow>
     (case queue s of
        [] \<Rightarrow> (Inl IndexError, s, w)
      | search_pt # rest \<Rightarrow>
          (case step check_action eng (teleport_action (start_position search_pt)) False
                  (s\<lparr>queue := rest\<rparr>, w) of
             (Inl e, sw1) \<Rightarrow> (Inl e, sw1)
           | (Inr event, sw1) \<Rightarrow>
               if \<not> lastActionSuccess (metadata event) then (Inl (AssertionError None), sw1)
               else
                 (case step check_action eng
                         (move_action (move_vector search_pt) (grid_size (fst sw1))) False sw1 of
                    (Inl e, sw2) \<Rightarrow> (Inl e, sw2)
                  | (Inr event, s2, w2) \<Rightarrow>
                      if lastActionSuccess (metadata event) then
                        if py (position (agent (metadata event))) > 1.3
                        then (Inl (Exception ''**** got big point ''), s2, w2)
                        else
                          let s3 = enqueue_points (position (agent (metadata event))) s2;
                              s4 = s3\<lparr>grid_points :=
                                        grid_points s3 @ [position (agent (metadata event))]\<rparr>
                          in (Inr event, s4, w2)
                      else (Inr event, s2, w2)))))"

text \<open>The loop \<open>while self.queue: self.queue_step()\<close>. Nothing bounds it in general (the
  engine decides which moves succeed), so it runs on fuel: \<open>None\<close> means that the fuel was
  used up before the queue was empty.\<close>

fun search_loop ::
    "nat \<Rightarrow> 'w engine \<Rightarrow> 'a BFSController_scheme \<times> 'w
      \<Rightarrow> ((error + unit) \<times> 'a BFSController_scheme \<times> 'w) option" where
  "search_loop 0 eng sw = (if queue (fst sw) = [] then Some (Inr (), sw) else None)"
| "search_loop (Suc n) eng sw =
     (if queue (fst sw) = [] then Some (Inr (), sw)
      else (case queue_step eng sw of
              (Inl e, sw') \<Rightarrow> Some (Inl e, sw')
            | (Inr event, sw') \<Rightarrow> search_loop n eng sw'))"

text \<open>\<open>BFSController.search_all_closed\<close>: the single-start search.\<close>

definition search_all_closed ::
    "nat \<Rightarrow> 'w engine \<Rightarrow> string \<Rightarrow> 'a BFSController_scheme \<times> 'w
      \<Rightarrow> ((error + unit) \<times> 'a BFSController_scheme \<times> 'w) option" where
  "search_all_closed fuel eng scene_name sw = (case sw of (s, w) \<Rightarrow>
     (case reset eng scene_name
             (s\<lparr>allow_enqueue := True, queue := [], seen_points := [], grid_points := []\<rparr>, w) of
        (Inl e, sw1) \<Rightarrow> Some (Inl e, sw1)
      | (Inr event, sw1) \<Rightarrow>
          (case step check_action eng
                  [(''action'', Str ''Initialize''), (''gridSize'', Num 0.25)] False sw1 of
             (Inl e, sw2) \<Rightarrow> Some (Inl e, sw2)
           | (Inr event, s2, w2) \<Rightarrow>
               search_loop fuel eng
                 (enqueue_points (position (agent (metadata event))) s2, w2))))"

text \<open>\<open>BFSController.prune_points\<close>.\<close>

definition prune_points :: "'a BFSController_scheme \<Rightarrow> 'a BFSController_scheme" where
  "prune_points s =
     (let final_grid_points =
            fold (\<lambda>gp acc. insert (key_for_point (px gp) (pz gp)) acc) (grid_points s) {};
          pruned_grid_points =
            fold (\<lambda>gp pruned.
                    let found = False;
                        found = fold (\<lambda>x found. found \<or>
                                   key_for_point (px gp + grid_size s * x) (pz gp)
                                     \<in> final_grid_points) [1, - 1] found;
                        found = fold (\<lambda>z found. found \<or>
                                   key_for_point (px gp) (grid_size s * z + pz gp)
                                     \<in> final_grid_points) [1, - 1] found
                    in if found then pruned @ [gp] else pruned)
                 (grid_points s) []
      in s\<lparr>grid_points := pruned_grid_points\<rparr>)"



text \<open>\<open>BFSController.start_search\<close>: the seeded search. Between the seeding and the loop
  the source resets the scene, optionally calls \<open>random_initialize\<close>, and calls
  \<open>initialize_scene\<close>. These exchange actions with the engine through \<open>reset\<close> and \<open>step\<close> and
  otherwise write only \<open>target_objects\<close>, \<open>object_receptacle\<close> and \<open>open_receptacles\<close>; they
  never touch the frontier, the seen targets, the grid points or \<open>allow_enqueue\<close>. They are
  the parameter \<open>scene_setup\<close>, which gets and returns only the inherited controller
  fields and the engine state.\<close>

definition controller_of :: "'a BFSController_scheme \<Rightarrow> Controller" where
  "controller_of s =
     \<lparr>request_queue = request_queue s, response_queue = response_queue s,
      last_event = last_event s\<rparr>"

definition with_controller :: "Controller \<Rightarrow> 'a BFSController_scheme \<Rightarrow> 'a BFSController_scheme" where
  "with_controller c s =
     s\<lparr>request_queue := request_queue c, response_queue := response_queue c,
       last_event := last_event c\<rparr>"

definition start_search_seed :: "xyz list \<Rightarrow> 'a BFSController_scheme \<Rightarrow> 'a BFSController_scheme" where
  "start_search_seed full_grid s =
     (let s = s\<lparr>seen_points := [], queue := [], grid_points := []\<rparr>;
          s = s\<lparr>allow_enqueue := True\<rparr>;
          s = fold enqueue_points full_grid s
      in s\<lparr>allow_enqueue := False\<rparr>)"

definition start_search ::
    "nat \<Rightarrow> 'w engine \<Rightarrow> (Controller \<times> 'w \<Rightarrow> (error + unit) \<times> Controller \<times> 'w) \<Rightarrow> xyz list
      \<Rightarrow> 'a BFSController_scheme \<times> 'w
      \<Rightarrow> ((error + unit) \<times> 'a BFSController_scheme \<times> 'w) option" where
  "start_search fuel eng scene_setup full_grid sw = (case sw of (s, w) \<Rightarrow>
     let s1 = start_search_seed full_grid s in
     (case scene_setup (controller_of s1, w) of
        (Inl e, c, w1) \<Rightarrow> Some (Inl e, with_controller c s1, w1)
      | (Inr u, c, w1) \<Rightarrow>
          (case search_loop fuel eng (with_controller c s1, w1) of
             None \<Rightarrow> None
           | Some (Inl e, sw2) \<Rightarrow> Some (Inl e, sw2)
           | Some (Inr u, s2, w2) \<Rightarrow> Some (Inr (), prune_points s2, w2))))"

section \<open>Connectivity check\<close>

text \<open>\<open>BFSController.has_islands\<close>. Its local list \<open>queue\<close> is \<open>todo\<close> here and its local set \<open>seen_points\<close>, which holds the
  JSON text of grid points, is the set \<open>seen\<close> of the points themselves. \<open>queue.pop()\<close> takes
  the last element.\<close>

definition enqueue_island_points :: "real \<Rightarrow> xyz \<Rightarrow> xz list \<times> xyz set \<Rightarrow> xz list \<times> xyz set" where
  "enqueue_island_points mag p st = (case st of (todo, seen) \<Rightarrow>
     if p \<in> seen then (todo, seen)
     else (todo @ [\<lparr>px = px p, pz = pz p + mag\<rparr>, \<lparr>px = px p, pz = pz p - mag\<rparr>,
                    \<lparr>px = px p + mag, pz = pz p\<rparr>, \<lparr>px = px p - mag, pz = pz p\<rparr>],
           insert p seen))"

definition find_point :: "real \<Rightarrow> xz \<Rightarrow> xyz list \<Rightarrow> xz list \<times> xyz set \<Rightarrow> xz list \<times> xyz set" where
  "find_point mag point_to_find gps st =
     fold (\<lambda>p st.
             let dist = sqrt ((px point_to_find - px p)\<^sup>2 + (pz point_to_find - pz p)\<^sup>2)
             in if dist < 0.05 then enqueue_island_points mag p st else st)
          gps st"

lemma find_point_grows:
  "find_point mag t gps (q, seen) = (q', seen') \<Longrightarrow>
     seen \<subseteq> seen' \<and> seen' \<subseteq> seen \<union> set gps \<and> (seen' = seen \<longrightarrow> q' = q)"
proof (induction gps arbitrary: q seen)
  case Nil
  then show ?case by (simp add: find_point_def)
next
  case (Cons p gps)
  obtain q1 seen1 where st1:
    "(let dist = sqrt ((px t - px p)\<^sup>2 + (pz t - pz p)\<^sup>2)
      in if dist < 0.05 then enqueue_island_points mag p (q, seen) else (q, seen)) = (q1, seen1)"
    by (metis surj_pair)
  then have one: "seen \<subseteq> seen1 \<and> seen1 \<subseteq> insert p seen \<and> (seen1 = seen \<longrightarrow> q1 = q)"
    by (auto simp: Let_def enqueue_island_points_def split: if_splits)
  from Cons.prems st1 have "find_point mag t gps (q1, seen1) = (q', seen')"
    by (simp add: find_point_def)
  from Cons.IH [OF this] one show ?case by auto
qed

function island_loop :: "real \<Rightarrow> xyz list \<Rightarrow> xz list \<times> xyz set \<Rightarrow> xyz set" where
  "island_loop mag gps (todo, seen) =
     (if todo = [] then seen
      else island_loop mag gps (find_point mag (last todo) gps (butlast todo, seen)))"
  by pat_completeness auto
termination
proof (relation "inv_image (less_than <*lex*> less_than)
         (\<lambda>(mag, gps, todo, seen). (card (set gps - seen), length todo))")
  show "wf (inv_image (less_than <*lex*> less_than)
         (\<lambda>(mag, gps, todo, seen). (card (set gps - seen), length todo)))"
    by (intro wf_inv_image wf_lex_prod wf_less_than)
next
  fix mag :: real and gps :: "xyz list" and todo :: "xz list" and seen :: "xyz set"
  assume ne: "todo \<noteq> []"
  obtain q' seen' where r: "find_point mag (last todo) gps (butlast todo, seen) = (q', seen')"
    by (metis surj_pair)
  from find_point_grows [OF r]
  have g: "seen \<subseteq> seen'" "seen' \<subseteq> seen \<union> set gps"
    "seen' = seen \<longrightarrow> q' = butlast todo"
    by auto
  show "((mag, gps, find_point mag (last todo) gps (butlast todo, seen)),
         (mag, gps, todo, seen))
        \<in> inv_image (less_than <*lex*> less_than)
            (\<lambda>(mag, gps, todo, seen). (card (set gps - seen), length todo))"
  proof (cases "seen' = seen")
    case True
    with g ne r show ?thesis by simp
  next
    case False
    with g have "set gps - seen' \<subset> set gps - seen" by auto
    then have "card (set gps - seen') < card (set gps - seen)"
      by (intro psubset_card_mono) auto
    with r show ?thesis by simp
  qed
qed

declare island_loop.simps [simp del]

definition has_islands :: "'a BFSController_scheme \<Rightarrow> error + bool" where
  "has_islands s =
     (case grid_points s of
        [] \<Rightarrow> Inl IndexError
      | p0 # rest \<Rightarrow>
          let mag = grid_size s;
              seen = island_loop mag (grid_points s)
                       (enqueue_island_points mag p0 ([], {}))
          in Inr (card seen \<noteq> length (grid_points s)))"









section \<open>Concrete inputs\<close>

definition ex_agent :: Agent where
  "ex_agent = \<lparr>position = \<lparr>px = 0, pz = 0, py = 1\<rparr>, rotation_y = 0, cameraHorizon = 0\<rparr>"

definition ex_failed_event :: Event where
  "ex_failed_event = \<lparr>metadata = \<lparr>lastActionSuccess = False, errorMessage = ''blocked'', agent = ex_agent\<rparr>, image_buf = ''''\<rparr>"

definition ex_ok_event :: Event where
  "ex_ok_event = \<lparr>metadata = \<lparr>lastActionSuccess = True, errorMessage = '''', agent = ex_agent\<rparr>, image_buf = ''''\<rparr>"

definition ex_failing_engine :: "unit engine" where
  "ex_failing_engine w a = (ex_failed_event, w)"

definition ex_controller :: Controller where
  "ex_controller = \<lparr>request_queue = [], response_queue = [], last_event = Some ex_ok_event\<rparr>"


definition ex_empty :: BFSController where
  "ex_empty = \<lparr>request_queue = [], response_queue = [], last_event = None,
     allow_enqueue = True, queue = [], seen_points = [], grid_points = [], grid_size = 0.25\<rparr>"




definition ex_pa :: xyz where
  "ex_pa = \<lparr>px = 0, pz = 0, py = 0.9\<rparr>"




text \<open>An engine for the examples: an open plane on which every teleport and every move
  succeeds and the agent arrives exactly where it was sent. Its state is the agent's
  position.\<close>

definition num_param :: "action \<Rightarrow> string \<Rightarrow> real" where
  "num_param a k = (case map_of a k of Some (Num v) \<Rightarrow> v | _ \<Rightarrow> 0)"

definition ex_event :: "xyz \<Rightarrow> Event" where
  "ex_event p = \<lparr>metadata = \<lparr>lastActionSuccess = True, errorMessage = [],
       agent = \<lparr>position = p, rotation_y = 0, cameraHorizon = 0\<rparr>\<rparr>, image_buf = []\<rparr>"

definition open_plane_engine :: "xyz engine" where
  "open_plane_engine w a =
     (let w' = (if map_of a ''action'' = Some (Str ''Teleport'')
                then \<lparr>px = num_param a ''x'', pz = num_param a ''z'', py = num_param a ''y''\<rparr>
                else if map_of a ''action'' = Some (Str ''Move'')
                then w\<lparr>px := px w + num_param a ''x'', pz := pz w + num_param a ''z''\<rparr>
                else w)
      in (ex_event w', w'))"

definition ex_west :: xyz where
  "ex_west = \<lparr>px = - 0.25, pz = 0, py = 0.9\<rparr>"

definition ex_seeded :: BFSController where
  "ex_seeded = start_search_seed [ex_pa] ex_empty"




section \<open>Auxiliary facts\<close>

lemma sqrt_less_iff: "0 \<le> c \<Longrightarrow> (sqrt v < c) = (v < c\<^sup>2)"
  by (metis real_sqrt_less_iff real_sqrt_abs abs_of_nonneg)


lemma distance_less_iff:
  "0 \<le> c \<Longrightarrow> (distance p q < c) = ((px p - px q)\<^sup>2 + (pz p - pz q)\<^sup>2 < c\<^sup>2)"
  by (simp add: distance_def Let_def sqrt_less_iff)







lemma step_frame:
  "step chk eng a r (s, w) = (res, s', w') \<Longrightarrow>
     allow_enqueue s' = allow_enqueue s \<and> queue s' = queue s \<and> seen_points s' = seen_points s
     \<and> grid_points s' = grid_points s \<and> grid_size s' = grid_size s"
  by (auto simp: step_def Let_def split: if_splits option.splits sum.splits prod.splits)

lemma queue_step_no_enqueue:
  assumes "\<not> allow_enqueue s" and "queue_step eng (s, w) = (r, s', w')"
  shows "\<not> allow_enqueue s' \<and> seen_points s' = seen_points s \<and> queue s' = tl (queue s)
       \<and> grid_size s' = grid_size s
       \<and> grid_points s' =
           (case r of
              Inr ev \<Rightarrow> if lastActionSuccess (metadata ev)
                        then grid_points s @ [position (agent (metadata ev))] else grid_points s
            | Inl e \<Rightarrow> grid_points s)"
proof (cases "queue s")
  case Nil
  with assms show ?thesis by (auto simp: queue_step_def)
next
  case (Cons sp rest)
  obtain r1 s1 w1 where t: "step check_action eng (teleport_action (start_position sp)) False
      (s\<lparr>queue := rest\<rparr>, w) = (r1, s1, w1)"
    by (metis prod_cases3)
  note f1 = step_frame [OF t]
  obtain r2 s2 w2 where m: "step check_action eng (move_action (move_vector sp) (grid_size s1)) False
      (s1, w1) = (r2, s2, w2)"
    by (metis prod_cases3)
  note f2 = step_frame [OF m]
  from assms Cons t m f1 f2 show ?thesis
    by (auto simp: queue_step_def enqueue_points_def Let_def split: sum.splits if_splits)
qed

lemma step_empty_queues:
  assumes "chk a" and "request_queue c = []" and "response_queue c = []"
  shows "step chk eng a r (c, w) =
     (case eng w (map (\<lambda>(k, v). (k, asscalar v)) a) of (ev, w') \<Rightarrow>
        (if r \<and> \<not> lastActionSuccess (metadata ev) then Inl (AssertionError None) else Inr ev,
         c\<lparr>response_queue := [], request_queue := [], last_event := Some ev\<rparr>, w'))"
  using assms
  by (auto simp: step_def put_nowait_def engine_turn_def queue_get_def Let_def split: prod.splits)

lemma enqueue_point_eval:
  assumes "0 \<le> grid_size s"
  shows "enqueue_point point s =
     (if \<not> list_ex (\<lambda>p. (px p - px (target_point point))\<^sup>2 + (pz p - pz (target_point point))\<^sup>2
                          < (grid_size s / 5)\<^sup>2) (seen_points s)
      then s\<lparr>seen_points := seen_points s @ [target_point point], queue := queue s @ [point]\<rparr>
      else s)"
proof -
  have h: "0 \<le> grid_size s / 5.0" using assms by simp
  show ?thesis
    unfolding enqueue_point_def Let_def distance_less_iff [OF h] by simp
qed

lemma ex_seeded_eq:
  "ex_seeded = ex_empty\<lparr>allow_enqueue := False,
      queue := [search_point ex_pa (- 0.25) 0, search_point ex_pa 0.25 0,
                search_point ex_pa 0 (- 0.25), search_point ex_pa 0 0.25],
      seen_points := [\<lparr>px = - 0.25, pz = 0\<rparr>, \<lparr>px = 0.25, pz = 0\<rparr>,
                      \<lparr>px = 0, pz = - 0.25\<rparr>, \<lparr>px = 0, pz = 0.25\<rparr>]\<rparr>"
  by (simp add: ex_seeded_def start_search_seed_def enqueue_points_def Let_def enqueue_point_eval
      target_point_def search_point_def ex_empty_def ex_pa_def power2_eq_square)

lemma ex_seeded_step:
  "queue_step open_plane_engine (ex_seeded, ex_pa) =
     (Inr (ex_event ex_west),
      ex_seeded\<lparr>queue := tl (queue ex_seeded), last_event := Some (ex_event ex_west),
                grid_points := [ex_west]\<rparr>, ex_west)"
  unfolding ex_seeded_eq
  by (simp add: queue_step_def step_empty_queues check_action_def teleport_action_def
      move_action_def open_plane_engine_def num_param_def search_point_def ex_event_def
      enqueue_points_def ex_empty_def ex_pa_def ex_west_def Let_def)

lemma ex_unseeded_step:
  "length (queue (fst (snd (queue_step open_plane_engine
       (ex_seeded\<lparr>allow_enqueue := True\<rparr>, ex_pa))))) = 7"
  unfolding ex_seeded_eq
  by (simp add: queue_step_def step_empty_queues check_action_def teleport_action_def
      move_action_def open_plane_engine_def num_param_def search_point_def ex_event_def
      enqueue_points_def enqueue_point_eval target_point_def ex_empty_def ex_pa_def ex_west_def Let_def
      power2_eq_square)


lemma start_search_seed_flag: "\<not> allow_enqueue (start_search_seed full_grid s0)"
  by (simp add: start_search_seed_def Let_def)

lemma search_loop_no_enqueue:
  "\<not> allow_enqueue s \<Longrightarrow> search_loop n eng (s, w) = Some (r, s', w') \<Longrightarrow>
     \<not> allow_enqueue s' \<and> seen_points s' = seen_points s"
proof (induction n arbitrary: s w)
  case 0
  then show ?case by (simp split: if_splits)
next
  case (Suc n)
  show ?case
  proof (cases "queue s = []")
    case True
    with Suc.prems show ?thesis by simp
  next
    case False
    obtain r1 s1 w1 where q: "queue_step eng (s, w) = (r1, s1, w1)"
      by (metis prod_cases3)
    note f = queue_step_no_enqueue [OF Suc.prems(1) q]
    show ?thesis
    proof (cases r1)
      case (Inl e)
      with Suc.prems False q f show ?thesis by simp
    next
      case (Inr ev)
      with Suc.prems False q have "search_loop n eng (s1, w1) = Some (r, s', w')" by simp
      from Suc.IH [OF _ this] f show ?thesis by simp
    qed
  qed
qed


















section \<open>Failure of an action\<close>

lemma step_accepted:
  assumes "chk a" "request_queue c = []" "response_queue c = []" "eng w (map (\<lambda>(k, v). (k, asscalar v)) a) = (ev, w')"
  shows "step chk eng a r (c, w) =
     (if r \<and> \<not> lastActionSuccess (metadata ev) then Inl (AssertionError None) else Inr ev,
      c\<lparr>response_queue := [], request_queue := [], last_event := Some ev\<rparr>, w')"
  using assms
  by (simp add: step_def put_nowait_def engine_turn_def queue_get_def Let_def)

text \<open>
  Claim C1, as the specification states it: with \<open>raise_for_failure\<close> set, a failed event
  makes \<open>step\<close> fail with a condition that carries the engine's error message. The source
  raises with a bare \<open>assert\<close>: the error is an \<open>AssertionError\<close> without a message, although
  the engine's event says \<open>''blocked''\<close>.
\<close>

theorem step_raise_counterexample:
  "fst (step check_action ex_failing_engine (act ''MoveAhead'') True (ex_controller, ()))
     = Inl (AssertionError None)
   \<and> message_of (AssertionError None) = None
   \<and> errorMessage (metadata ex_failed_event) = ''blocked''"
  by (simp add: step_def check_action_def ex_failing_engine_def ex_controller_def act_def
      put_nowait_def engine_turn_def queue_get_def ex_failed_event_def)

text \<open>
  Claim C1, amended: for an accepted action sent while both slots are empty, when the
  engine answers with a failed event, \<open>step\<close> with \<open>raise_for_failure\<close> set fails with an
  assertion failure that carries no message, and \<open>step\<close> without it returns the failed
  event to the caller and raises nothing.
\<close>

theorem step_failure:
  assumes "chk a" and "request_queue c = []" and "response_queue c = []"
    and "eng w (map (\<lambda>(k, v). (k, asscalar v)) a) = (ev, w')"
    and "\<not> lastActionSuccess (metadata ev)"
  shows "fst (step chk eng a True (c, w)) = Inl (AssertionError None)
       \<and> message_of (AssertionError None) = None
       \<and> fst (step chk eng a False (c, w)) = Inr ev"
  using assms by (simp add: step_accepted)

theorem step_failure_witness:
  "check_action (act ''MoveAhead'')
   \<and> \<not> lastActionSuccess (metadata ex_failed_event)
   \<and> fst (step check_action ex_failing_engine (act ''MoveAhead'') True (ex_controller, ()))
       = Inl (AssertionError None)
   \<and> fst (step check_action ex_failing_engine (act ''MoveAhead'') False (ex_controller, ()))
       = Inr ex_failed_event"
  using step_failure [where chk = check_action and a = "act ''MoveAhead''" and c = ex_controller and eng = ex_failing_engine and w = "()" and ev = ex_failed_event and w' = "()"]
  by (simp add: check_action_def ex_controller_def ex_failing_engine_def ex_failed_event_def act_def)

text \<open>
  Claim C2: an action that the pre-flight check rejects never reaches the channel. Both
  queues and the engine state are as before the call, and the returned event is the
  previous event with \<open>lastActionSuccess\<close> set to false (it also becomes the last event).
  Before any event was received there is no metadata to copy, and the call raises.
\<close>

theorem step_rejected:
  assumes "\<not> chk a"
  shows "(case last_event c of
            None \<Rightarrow> step chk eng a r (c, w) = (Inl AttributeError, c, w)
          | Some le \<Rightarrow>
              step chk eng a r (c, w) =
                (Inr \<lparr>metadata = (metadata le)\<lparr>lastActionSuccess := False\<rparr>, image_buf = image_buf le\<rparr>,
                 c\<lparr>last_event :=
                     Some \<lparr>metadata = (metadata le)\<lparr>lastActionSuccess := False\<rparr>, image_buf = image_buf le\<rparr>\<rparr>,
                 w))
       \<and> request_queue (fst (snd (step chk eng a r (c, w)))) = request_queue c
       \<and> response_queue (fst (snd (step chk eng a r (c, w)))) = response_queue c
       \<and> snd (snd (step chk eng a r (c, w))) = w"
  using assms by (simp add: step_def Let_def split: option.splits)

theorem step_rejected_witness:
  "\<not> (\<lambda>a. False) (act ''Fly'')
   \<and> step (\<lambda>a. False) ex_failing_engine (act ''Fly'') False (ex_controller, ()) =
       (Inr \<lparr>metadata = (metadata ex_ok_event)\<lparr>lastActionSuccess := False\<rparr>, image_buf = image_buf ex_ok_event\<rparr>,
        ex_controller\<lparr>last_event :=
           Some \<lparr>metadata = (metadata ex_ok_event)\<lparr>lastActionSuccess := False\<rparr>, image_buf = image_buf ex_ok_event\<rparr>\<rparr>,
        ())
   \<and> request_queue (fst (snd (step (\<lambda>a. False) ex_failing_engine (act ''Fly'') False (ex_controller, ())))) = []"
  using step_rejected [where chk = "\<lambda>a. False" and a = "act ''Fly''" and c = ex_controller and eng = ex_failing_engine and r = False and w = "()"]
  by (simp add: ex_controller_def)

text \<open>
  Claim C9: when \<open>step\<close> raises because the engine's event failed, \<open>last_event\<close> already
  holds that failed event.
\<close>

theorem step_failure_replaces_last_event:
  assumes "chk a" and "request_queue c = []" and "response_queue c = []"
    and "eng w (map (\<lambda>(k, v). (k, asscalar v)) a) = (ev, w')"
    and "\<not> lastActionSuccess (metadata ev)"
  shows "fst (step chk eng a True (c, w)) = Inl (AssertionError None)
       \<and> last_event (fst (snd (step chk eng a True (c, w)))) = Some ev"
  using assms by (simp add: step_accepted)

theorem step_failure_replaces_last_event_witness:
  "last_event ex_controller = Some ex_ok_event \<and> ex_ok_event \<noteq> ex_failed_event
   \<and> fst (step check_action ex_failing_engine (act ''MoveAhead'') True (ex_controller, ()))
       = Inl (AssertionError None)
   \<and> last_event (fst (snd (step check_action ex_failing_engine (act ''MoveAhead'') True (ex_controller, ()))))
       = Some ex_failed_event"
  using step_failure_replaces_last_event [where chk = check_action and a = "act ''MoveAhead''" and c = ex_controller and eng = ex_failing_engine and w = "()" and ev = ex_failed_event and w' = "()"]
  by (simp add: check_action_def ex_controller_def ex_failing_engine_def ex_failed_event_def ex_ok_event_def act_def)

section \<open>Rotation planning\<close>

lemma plan_rotations_table:
  assumes "a \<in> headings" "t \<in> headings"
  shows "plan_rotations a t =
    (if t = a then []
     else if t - a = 90 \<or> t - a = - 270 then [act ''RotateRight'']
     else if t - a = 180 \<or> t - a = - 180 then [act ''RotateLeft'', act ''RotateLeft'']
     else [act ''RotateLeft''])"
  using assms
  by (auto simp: headings_def plan_rotations_def py_int_def Let_def numeral_2_eq_2)

lemma plan_rotations_length:
  assumes "a \<in> headings" "t \<in> headings"
  shows "length (plan_rotations a t) \<le> 2"
  by (simp add: plan_rotations_table [OF assms])

lemma plan_rotations_minimal:
  assumes "a \<in> headings" "t \<in> headings"
    and "(turn_right ^^ k) a = t \<or> (turn_left ^^ k) a = t"
  shows "length (plan_rotations a t) \<le> k"
proof (cases k)
  case 0
  with assms(3) have "t = a" by simp
  then show ?thesis using plan_rotations_table [OF assms(1,2)] by simp
next
  case (Suc m)
  show ?thesis
  proof (cases m)
    case 0
    with Suc assms(3) have "turn_right a = t \<or> turn_left a = t" by simp
    with assms(1,2) show ?thesis
      unfolding Suc 0
      by (auto simp: plan_rotations_table [OF assms(1,2)] headings_def turn_right_def turn_left_def)
  next
    case (Suc j)
    with \<open>k = Suc m\<close> have "2 \<le> k" by simp
    with plan_rotations_length [OF assms(1,2)] show ?thesis by simp
  qed
qed

text \<open>
  Claim C8: for headings on the compass \<open>0, 90, 180, 270\<close>, \<open>plan_rotations\<close> emits at most
  two actions, all \<open>RotateRight\<close> or all \<open>RotateLeft\<close>, and they turn the agent's heading
  into the target heading; no number of quarter turns in one direction reaches the target
  with fewer actions; and when two turns either way reach it (a difference of 180
  degrees), the plan is two \<open>RotateLeft\<close> actions.
\<close>

theorem plan_rotations_shortest:
  assumes "a \<in> headings" "t \<in> headings"
  shows "(\<exists>n. n \<le> 2 \<and>
           (plan_rotations a t = replicate n (act ''RotateRight'') \<and> (turn_right ^^ n) a = t
            \<or> plan_rotations a t = replicate n (act ''RotateLeft'') \<and> (turn_left ^^ n) a = t))
       \<and> (\<forall>k. (turn_right ^^ k) a = t \<or> (turn_left ^^ k) a = t
              \<longrightarrow> length (plan_rotations a t) \<le> k)
       \<and> ((turn_right ^^ 2) a = t \<and> (turn_left ^^ 2) a = t
              \<longrightarrow> plan_rotations a t = [act ''RotateLeft'', act ''RotateLeft''])"
proof (intro conjI allI impI)
  have "plan_rotations a t = [] \<and> a = t
      \<or> plan_rotations a t = [act ''RotateRight''] \<and> turn_right a = t
      \<or> plan_rotations a t = [act ''RotateLeft''] \<and> turn_left a = t
      \<or> plan_rotations a t = [act ''RotateLeft'', act ''RotateLeft''] \<and> turn_left (turn_left a) = t"
    using assms
    by (auto simp: plan_rotations_table [OF assms] headings_def turn_right_def turn_left_def)
  then consider (z) "plan_rotations a t = []" "a = t"
    | (r) "plan_rotations a t = [act ''RotateRight'']" "turn_right a = t"
    | (l) "plan_rotations a t = [act ''RotateLeft'']" "turn_left a = t"
    | (ll) "plan_rotations a t = [act ''RotateLeft'', act ''RotateLeft'']" "turn_left (turn_left a) = t"
    by blast
  then show "\<exists>n. n \<le> 2 \<and>
           (plan_rotations a t = replicate n (act ''RotateRight'') \<and> (turn_right ^^ n) a = t
            \<or> plan_rotations a t = replicate n (act ''RotateLeft'') \<and> (turn_left ^^ n) a = t)"
  proof cases
    case z then show ?thesis by (intro exI [of _ 0]) simp
  next
    case r then show ?thesis by (intro exI [of _ 1]) simp
  next
    case l then show ?thesis by (intro exI [of _ 1]) simp
  next
    case ll then show ?thesis by (intro exI [of _ 2]) (simp add: numeral_2_eq_2)
  qed
next
  fix k assume "(turn_right ^^ k) a = t \<or> (turn_left ^^ k) a = t"
  then show "length (plan_rotations a t) \<le> k"
    by (rule plan_rotations_minimal [OF assms])
next
  assume "(turn_right ^^ 2) a = t \<and> (turn_left ^^ 2) a = t"
  then have "turn_right (turn_right a) = t" by (simp add: numeral_2_eq_2)
  with assms show "plan_rotations a t = [act ''RotateLeft'', act ''RotateLeft'']"
    by (auto simp: plan_rotations_table [OF assms] headings_def turn_right_def)
qed

theorem plan_rotations_shortest_witness:
  "(0::real) \<in> headings \<and> (180::real) \<in> headings
   \<and> (turn_right ^^ 2) 0 = 180 \<and> (turn_left ^^ 2) 0 = 180
   \<and> plan_rotations 0 180 = [act ''RotateLeft'', act ''RotateLeft'']
   \<and> length (plan_rotations 0 180) \<le> 2"
  using plan_rotations_shortest [where a = 0 and t = 180]
  by (simp add: headings_def turn_right_def turn_left_def numeral_2_eq_2)

section \<open>Connectivity check on the empty grid\<close>

text \<open>
  Claim C10: \<open>has_islands\<close> reads \<open>grid_points[0]\<close> before anything else, so on the empty
  grid it raises \<open>IndexError\<close> and returns no boolean; on every other grid it returns one.
\<close>

theorem has_islands_empty_grid:
  "(grid_points s = [] \<longrightarrow> has_islands s = Inl IndexError)
   \<and> (grid_points s \<noteq> [] \<longrightarrow> (\<exists>b. has_islands s = Inr b))"
  by (simp add: has_islands_def Let_def split: list.split)

theorem has_islands_empty_grid_witness:
  "grid_points ex_empty = [] \<and> has_islands ex_empty = Inl IndexError"
  using has_islands_empty_grid [where s = ex_empty] by (simp add: ex_empty_def)

section \<open>Pruning\<close>




section \<open>Seeded search\<close>

text \<open>
  Claim C6, as the specification states it: after seeding, the seeded search explores like
  the single-start search, so that every successful move appends the new pose and enqueues
  candidates derived from it. \<open>start_search\<close> switches \<open>allow_enqueue\<close> off after seeding.
  Seeded from the one point \<open>(0, 0)\<close> on the open plane, the first step moves to
  \<open>(-0.25, 0)\<close> and appends it, but the frontier then holds only the three other seeds and
  the seen targets are unchanged; with \<open>allow_enqueue\<close> on, the same step leaves seven
  candidates in the frontier.
\<close>

theorem seeded_search_counterexample:
  "\<not> allow_enqueue ex_seeded
   \<and> length (queue ex_seeded) = 4
   \<and> fst (queue_step open_plane_engine (ex_seeded, ex_pa)) = Inr (ex_event ex_west)
   \<and> lastActionSuccess (metadata (ex_event ex_west))
   \<and> grid_points (fst (snd (queue_step open_plane_engine (ex_seeded, ex_pa)))) = [ex_west]
   \<and> length (queue (fst (snd (queue_step open_plane_engine (ex_seeded, ex_pa))))) = 3
   \<and> seen_points (fst (snd (queue_step open_plane_engine (ex_seeded, ex_pa))))
       = seen_points ex_seeded
   \<and> length (queue (fst (snd (queue_step open_plane_engine
                                  (ex_seeded\<lparr>allow_enqueue := True\<rparr>, ex_pa))))) = 7"
proof -
  have "length (queue ex_seeded) = 4" "\<not> allow_enqueue ex_seeded"
    by (simp_all add: ex_seeded_eq)
  moreover have "lastActionSuccess (metadata (ex_event ex_west))"
    by (simp add: ex_event_def)
  ultimately show ?thesis
    by (simp add: ex_seeded_step ex_unseeded_step)
qed

text \<open>
  Claim C6, amended: in the seeded search \<open>allow_enqueue\<close> is off after seeding and stays
  off; every step takes one candidate from the frontier, appends the resulting pose to
  \<open>grid_points\<close> when the move succeeds, and derives no new candidate: the frontier only
  loses its first element and the seen targets do not change, in one step and over the
  whole loop.
\<close>

theorem seeded_search_no_new_candidates:
  "\<not> allow_enqueue (start_search_seed full_grid s0)
   \<and> (\<not> allow_enqueue s \<and> queue_step eng (s, w) = (r, s', w') \<longrightarrow>
        \<not> allow_enqueue s' \<and> seen_points s' = seen_points s \<and> queue s' = tl (queue s)
        \<and> grid_points s' =
            (case r of
               Inr ev \<Rightarrow> if lastActionSuccess (metadata ev)
                         then grid_points s @ [position (agent (metadata ev))]
                         else grid_points s
             | Inl e \<Rightarrow> grid_points s))
   \<and> (\<not> allow_enqueue s \<and> search_loop n eng (s, w) = Some (r', s'', w'') \<longrightarrow>
        \<not> allow_enqueue s'' \<and> seen_points s'' = seen_points s)"
proof (intro conjI)
  show "\<not> allow_enqueue (start_search_seed full_grid s0)"
    by (rule start_search_seed_flag)
next
  show "\<not> allow_enqueue s \<and> queue_step eng (s, w) = (r, s', w') \<longrightarrow>
        \<not> allow_enqueue s' \<and> seen_points s' = seen_points s \<and> queue s' = tl (queue s)
        \<and> grid_points s' =
            (case r of
               Inr ev \<Rightarrow> if lastActionSuccess (metadata ev)
                         then grid_points s @ [position (agent (metadata ev))]
                         else grid_points s
             | Inl e \<Rightarrow> grid_points s)"
  proof
    assume a: "\<not> allow_enqueue s \<and> queue_step eng (s, w) = (r, s', w')"
    from queue_step_no_enqueue [OF conjunct1 [OF a] conjunct2 [OF a]]
    show "\<not> allow_enqueue s' \<and> seen_points s' = seen_points s \<and> queue s' = tl (queue s)
        \<and> grid_points s' =
            (case r of
               Inr ev \<Rightarrow> if lastActionSuccess (metadata ev)
                         then grid_points s @ [position (agent (metadata ev))]
                         else grid_points s
             | Inl e \<Rightarrow> grid_points s)"
      by simp
  qed
next
  show "\<not> allow_enqueue s \<and> search_loop n eng (s, w) = Some (r', s'', w'') \<longrightarrow>
        \<not> allow_enqueue s'' \<and> seen_points s'' = seen_points s"
  proof
    assume a: "\<not> allow_enqueue s \<and> search_loop n eng (s, w) = Some (r', s'', w'')"
    from search_loop_no_enqueue [OF conjunct1 [OF a] conjunct2 [OF a]]
    show "\<not> allow_enqueue s'' \<and> seen_points s'' = seen_points s" .
  qed
qed

theorem seeded_search_no_new_candidates_witness:
  "\<not> allow_enqueue ex_seeded
   \<and> queue_step open_plane_engine (ex_seeded, ex_pa) =
       (Inr (ex_event ex_west),
        ex_seeded\<lparr>queue := tl (queue ex_seeded), last_event := Some (ex_event ex_west),
                  grid_points := [ex_west]\<rparr>, ex_west)
   \<and> lastActionSuccess (metadata (ex_event ex_west))
   \<and> grid_points ex_seeded = []
   \<and> position (agent (metadata (ex_event ex_west))) = ex_west"
  using seeded_search_no_new_candidates [where full_grid = "[ex_pa]" and ?s0.0 = ex_empty
      and s = ex_seeded and eng = open_plane_engine and w = ex_pa
      and r = "Inr (ex_event ex_west)"
      and s' = "ex_seeded\<lparr>queue := tl (queue ex_seeded), last_event := Some (ex_event ex_west),
                  grid_points := [ex_west]\<rparr>" and w' = ex_west]
  by (simp add: ex_seeded_step) (simp add: ex_seeded_eq ex_event_def ex_empty_def)

section \<open>Connectivity check\<close>




end
